theory Spec2Isabelle
  imports Complex_Main
begin

section \<open>Python string operations used by the checker\<close>

text \<open>
  Python strings are modelled as \<open>string\<close>; a \<open>char\<close> stands for a code point below 256.
  Every operation below is the Python method of the same name, restricted to the
  arguments the checker passes.
\<close>

definition newline :: char where
  "newline = CHR 0x0A"

text \<open>\<^verbatim>\<open>str.isspace\<close> on one character: the code points below 256 that Unicode
  classifies as whitespace.\<close>

definition isspace :: "char \<Rightarrow> bool" where
  "isspace c = (c \<in> set [CHR 0x09, CHR 0x0A, CHR 0x0B, CHR 0x0C, CHR 0x0D,
                         CHR 0x1C, CHR 0x1D, CHR 0x1E, CHR 0x1F, CHR 0x20,
                         CHR 0x85, CHR 0xA0])"

text \<open>\<^verbatim>\<open>s.strip(chars)\<close>: drop the characters satisfying \<open>P\<close> from both ends.\<close>

definition strip_where :: "(char \<Rightarrow> bool) \<Rightarrow> string \<Rightarrow> string" where
  "strip_where P s = rev (dropWhile P (rev (dropWhile P s)))"

text \<open>\<^verbatim>\<open>s.strip()\<close>\<close>

definition strip :: "string \<Rightarrow> string" where
  "strip s = strip_where isspace s"

text \<open>\<^verbatim>\<open>s.strip('#')\<close>\<close>

definition strip_hash :: "string \<Rightarrow> string" where
  "strip_hash s = strip_where (\<lambda>c. c = CHR ''#'') s"

text \<open>\<^verbatim>\<open>s.lower()\<close>: the upper-case letters below 256 are A to Z and 0xC0 to 0xDE
  without 0xD7; each has its lower-case form 32 code points further.\<close>

definition lower_char :: "char \<Rightarrow> char" where
  "lower_char c =
     (let n = (of_char c :: nat)
      in if (65 \<le> n \<and> n \<le> 90) \<or> (192 \<le> n \<and> n \<le> 222 \<and> n \<noteq> 215)
         then char_of (n + 32) else c)"

definition lower :: "string \<Rightarrow> string" where
  "lower s = map lower_char s"

text \<open>\<^verbatim>\<open>s.startswith(p)\<close>, \<^verbatim>\<open>s.endswith(p)\<close> and \<^verbatim>\<open>sub in s\<close>\<close>

definition startswith :: "string \<Rightarrow> string \<Rightarrow> bool" where
  "startswith s p = (take (length p) s = p)"

definition endswith :: "string \<Rightarrow> string \<Rightarrow> bool" where
  "endswith s p = (length p \<le> length s \<and> drop (length s - length p) s = p)"

fun contains :: "string \<Rightarrow> string \<Rightarrow> bool" where
  "contains sub [] = (sub = [])"
| "contains sub (c # s) = (startswith (c # s) sub \<or> contains sub s)"

text \<open>\<^verbatim>\<open>s.split(sep)\<close> for a separator of one character: never an empty list.\<close>

fun split_on :: "char \<Rightarrow> string \<Rightarrow> string list" where
  "split_on sep [] = [[]]"
| "split_on sep (c # s) =
     (if c = sep then [] # split_on sep s
      else (case split_on sep s of
              [] \<Rightarrow> [[c]]
            | w # ws \<Rightarrow> (c # w) # ws))"

definition split_lines :: "string \<Rightarrow> string list" where
  "split_lines s = split_on newline s"

text \<open>\<^verbatim>\<open>s.split('=', 1)\<close> on a string that contains the separator: the text before
  the first separator and the text after it.\<close>

definition split_first :: "char \<Rightarrow> string \<Rightarrow> string \<times> string" where
  "split_first sep s = (takeWhile (\<lambda>c. c \<noteq> sep) s, drop 1 (dropWhile (\<lambda>c. c \<noteq> sep) s))"

text \<open>\<^verbatim>\<open>'\n'.join(xs)\<close>\<close>

fun join_lines :: "string list \<Rightarrow> string" where
  "join_lines [] = []"
| "join_lines [x] = x"
| "join_lines (x # y # ys) = x @ newline # join_lines (y # ys)"

text \<open>\<^verbatim>\<open>s[1:-1]\<close>\<close>

definition slice_1_m1 :: "string \<Rightarrow> string" where
  "slice_1_m1 s = butlast (drop 1 s)"

text \<open>\<^verbatim>\<open>s.replace(old, new)\<close>: every occurrence of \<open>old\<close>, found from the left without
  overlap, becomes \<open>new\<close>. With an empty \<open>old\<close> Python puts \<open>new\<close> before every
  character and at the end.\<close>

function replace :: "string \<Rightarrow> string \<Rightarrow> string \<Rightarrow> string" where
  "replace old new s =
     (if old = [] then new @ concat (map (\<lambda>c. c # new) s)
      else if s = [] then []
      else if startswith s old then new @ replace old new (drop (length old) s)
      else hd s # replace old new (tl s))"
  by pat_completeness auto
termination
  by (relation "measure (\<lambda>(old, new, s). length s)") auto

declare replace.simps [simp del]

section \<open>Python's \<^verbatim>\<open>int()\<close> and \<^verbatim>\<open>float()\<close> on strings\<close>

definition isdigit :: "char \<Rightarrow> bool" where
  "isdigit c = (c \<in> set ''0123456789'')"

definition digit_val :: "char \<Rightarrow> int" where
  "digit_val c = of_char c - 48"

text \<open>The value of a string of digits, most significant first.\<close>

definition digits_val :: "string \<Rightarrow> int" where
  "digits_val s = foldl (\<lambda>a c. 10 * a + digit_val c) 0 s"

text \<open>A digit part: digits, with single underscores allowed between two digits.\<close>

definition digitpart :: "string \<Rightarrow> bool" where
  "digitpart s = list_all (\<lambda>p. p \<noteq> [] \<and> list_all isdigit p) (split_on (CHR ''_'') s)"

definition digitpart_val :: "string \<Rightarrow> int" where
  "digitpart_val s = digits_val (filter isdigit s)"

text \<open>An optional sign in front: the sign (\<open>True\<close> for minus) and the rest.\<close>

definition take_sign :: "string \<Rightarrow> bool \<times> string" where
  "take_sign s =
     (case s of
        [] \<Rightarrow> (False, [])
      | c # r \<Rightarrow> if c = CHR ''-'' then (True, r)
                 else if c = CHR ''+'' then (False, r)
                 else (False, s))"

text \<open>The whitespace \<^verbatim>\<open>int()\<close> and \<^verbatim>\<open>float()\<close> pass over at both ends of a string: tab
  to carriage return and the space, and the two whitespace code points from 127 on
  (0x85 and 0xA0), which the conversion turns into spaces first. The separators 0x1C
  to 0x1F, which \<^verbatim>\<open>str.strip\<close> removes, are not among them.\<close>

definition isspace_number :: "char \<Rightarrow> bool" where
  "isspace_number c = (c \<in> set [CHR 0x09, CHR 0x0A, CHR 0x0B, CHR 0x0C, CHR 0x0D,
                                CHR 0x20, CHR 0x85, CHR 0xA0])"

definition strip_number :: "string \<Rightarrow> string" where
  "strip_number s = strip_where isspace_number s"

text \<open>The default of \<^verbatim>\<open>sys.get_int_max_str_digits()\<close>: \<^verbatim>\<open>int()\<close> refuses a string with more
  digits (leading zeros counted, sign and underscores not).\<close>

definition int_max_str_digits :: int where
  "int_max_str_digits = 4300"

text \<open>\<^verbatim>\<open>int(s)\<close>: \<open>None\<close> stands for the \<^verbatim>\<open>ValueError\<close>.\<close>

definition py_int :: "string \<Rightarrow> int option" where
  "py_int s =
     (let (neg, body) = take_sign (strip_number s)
      in if digitpart body \<and> int (length (filter isdigit body)) \<le> int_max_str_digits
         then Some (if neg then - digitpart_val body else digitpart_val body)
         else None)"

text \<open>A Python float: a finite double by its value, the infinities, and not-a-number.
  Both zeros have the value 0; they compare equal in Python.\<close>

datatype pyfloat = Finite rat | PosInf | NegInf | NaN

text \<open>\<^verbatim>\<open>x == y\<close> on floats: not-a-number equals nothing.\<close>

definition float_eq :: "pyfloat \<Rightarrow> pyfloat \<Rightarrow> bool" where
  "float_eq x y = (x \<noteq> NaN \<and> y \<noteq> NaN \<and> x = y)"

function ilog2 :: "int \<Rightarrow> int" where
  "ilog2 n = (if n < 2 then 0 else 1 + ilog2 (n div 2))"
  by pat_completeness auto
termination
  by (relation "measure nat") auto

declare ilog2.simps [simp del]

definition pow2 :: "int \<Rightarrow> rat" where
  "pow2 e = (if 0 \<le> e then of_int (2 ^ nat e) else 1 / of_int (2 ^ nat (- e)))"

definition pow10 :: "int \<Rightarrow> rat" where
  "pow10 e = (if 0 \<le> e then of_int (10 ^ nat e) else 1 / of_int (10 ^ nat (- e)))"

text \<open>The exponent \<open>e\<close> with \<open>2^e \<le> q < 2^(e+1)\<close>, for a positive \<open>q\<close>.\<close>

definition floor_log2 :: "rat \<Rightarrow> int" where
  "floor_log2 q =
     (let (n, d) = quotient_of q;
          e0 = ilog2 n - ilog2 d
      in if pow2 e0 \<le> q then e0 else e0 - 1)"

definition round_half_even :: "rat \<Rightarrow> int" where
  "round_half_even m =
     (let f = \<lfloor>m\<rfloor>; r = m - of_int f
      in if r < 1 / 2 then f
         else if 1 / 2 < r then f + 1
         else if even f then f else f + 1)"

text \<open>Rounding a rational to the nearest double (53 bits of precision, least
  exponent -1022, ties to even); beyond the largest double the result is an infinity.\<close>

definition round_double :: "rat \<Rightarrow> pyfloat" where
  "round_double q =
     (if q = 0 then Finite 0
      else let a = \<bar>q\<bar>;
               p = max (floor_log2 a) (- 1022) - 52;
               v = of_int (round_half_even (a / pow2 p)) * pow2 p
           in if pow2 1024 \<le> v then (if 0 < q then PosInf else NegInf)
              else Finite (if 0 < q then v else - v))"

text \<open>The decimal number \<open>[digitpart] . digitpart | digitpart [.]\<close>: its digits and the
  number of digits after the point.\<close>

definition py_number :: "string \<Rightarrow> (int \<times> nat) option" where
  "py_number s =
     (if CHR ''.'' \<in> set s
      then (let (ip, fp) = split_first (CHR ''.'') s
            in if (ip = [] \<or> digitpart ip) \<and> (fp = [] \<or> digitpart fp) \<and> \<not> (ip = [] \<and> fp = [])
               then Some (digits_val (filter isdigit ip @ filter isdigit fp),
                          length (filter isdigit fp))
               else None)
      else if digitpart s then Some (digitpart_val s, 0) else None)"

text \<open>The exponent \<open>[sign] digitpart\<close>.\<close>

definition py_exponent :: "string \<Rightarrow> int option" where
  "py_exponent s =
     (let (neg, body) = take_sign s
      in if digitpart body
         then Some (if neg then - digitpart_val body else digitpart_val body)
         else None)"

definition is_e :: "char \<Rightarrow> bool" where
  "is_e c = (c = CHR ''e'' \<or> c = CHR ''E'')"

text \<open>\<^verbatim>\<open>float(s)\<close>: \<open>None\<close> stands for the \<^verbatim>\<open>ValueError\<close>.\<close>

definition py_float :: "string \<Rightarrow> pyfloat option" where
  "py_float s =
     (let (neg, body) = take_sign (strip_number s)
      in if lower body = ''inf'' \<or> lower body = ''infinity''
         then Some (if neg then NegInf else PosInf)
         else if lower body = ''nan'' then Some NaN
         else (let mant = takeWhile (\<lambda>c. \<not> is_e c) body;
                   rest = dropWhile (\<lambda>c. \<not> is_e c) body
               in case py_number mant of
                    None \<Rightarrow> None
                  | Some (m, k) \<Rightarrow>
                      (case (if rest = [] then Some 0 else py_exponent (drop 1 rest)) of
                         None \<Rightarrow> None
                       | Some e \<Rightarrow>
                           Some (round_double
                                   ((if neg then - of_int m else of_int m) * pow10 (e - int k))))))"

section \<open>The value comparator\<close>

text \<open>\<^verbatim>\<open>_compare_values\<close>: the keyword rule, then the numeric rule inside the
  \<^verbatim>\<open>try\<close> (a failed parse of either side leaves it), then the strings stripped.\<close>

definition numeric_compare :: "string \<Rightarrow> string \<Rightarrow> bool option" where
  "numeric_compare actual expected =
     (if CHR ''.'' \<in> set actual \<or> CHR ''.'' \<in> set expected
      then (case py_float actual of
              None \<Rightarrow> None
            | Some x \<Rightarrow> (case py_float expected of
                           None \<Rightarrow> None
                         | Some y \<Rightarrow> Some (float_eq x y)))
      else (case py_int actual of
              None \<Rightarrow> None
            | Some i \<Rightarrow> (case py_int expected of
                           None \<Rightarrow> None
                         | Some j \<Rightarrow> Some (i = j))))"

definition compare_values :: "string \<Rightarrow> string \<Rightarrow> bool" where
  "compare_values actual expected =
     (if lower expected \<in> set [''auto'', ''true'', ''false'']
      then lower actual = lower expected
      else (case numeric_compare actual expected of
              Some b \<Rightarrow> b
            | None \<Rightarrow> strip actual = strip expected))"

section \<open>The data model\<close>

datatype SplunkRole =
  SEARCH_HEAD | INDEXER | CLUSTER_MANAGER | SHC_DEPLOYER | HTTP_EVENT_COLLECTOR

text \<open>\<^verbatim>\<open>ConfigCheck\<close>: an expectation and, after the check pass, its result. The status
  is a string in the source; \<open>actual_value\<close> and \<open>role\<close> are \<^verbatim>\<open>Optional\<close>.\<close>

record ConfigCheck =
  config_file :: string
  stanza :: string
  setting :: string
  expected_value :: string
  actual_value :: "string option"
  status :: string
  role :: "SplunkRole option"

text \<open>A dictionary that keeps insertion order: assigning to a key it has keeps the
  key's place, assigning to a new key appends it.\<close>

fun dict_set :: "'k \<Rightarrow> 'v \<Rightarrow> ('k \<times> 'v) list \<Rightarrow> ('k \<times> 'v) list" where
  "dict_set k v [] = [(k, v)]"
| "dict_set k v ((k', v') # kvs) =
     (if k' = k then (k, v) # kvs else (k', v') # dict_set k v kvs)"

text \<open>The truth value of an \<^verbatim>\<open>Optional[str]\<close>: neither \<^verbatim>\<open>None\<close> nor empty.\<close>

definition truthy :: "string option \<Rightarrow> bool" where
  "truthy x = (case x of None \<Rightarrow> False | Some s \<Rightarrow> s \<noteq> [])"

section \<open>The stanza-text parser\<close>

text \<open>\<^verbatim>\<open>parse_btool_output\<close>: the loop over the lines, with the current stanza as its
  state; the \<^verbatim>\<open>return\<close> inside the loop ends the recursion.\<close>

fun scan_btool :: "string option \<Rightarrow> string \<Rightarrow> string \<Rightarrow> string list \<Rightarrow> string option" where
  "scan_btool current_stanza target_stanza target_setting [] = None"
| "scan_btool current_stanza target_stanza target_setting (raw # rest) =
     (let line = strip raw
      in if line = [] \<or> startswith line ''#''
         then scan_btool current_stanza target_stanza target_setting rest
         else if startswith line ''['' \<and> endswith line '']''
         then scan_btool (Some (slice_1_m1 line)) target_stanza target_setting rest
         else if current_stanza = Some target_stanza \<and> CHR ''='' \<in> set line
         then (let (k, v) = split_first (CHR ''='') line
               in if strip k = target_setting then Some (strip v)
                  else scan_btool current_stanza target_stanza target_setting rest)
         else scan_btool current_stanza target_stanza target_setting rest)"

definition parse_btool_output :: "string \<Rightarrow> string \<Rightarrow> string \<Rightarrow> string option" where
  "parse_btool_output output target_stanza target_setting =
     scan_btool None target_stanza target_setting (split_lines output)"

section \<open>The golden document parser\<close>

definition role_markers :: "(string \<times> SplunkRole) list" where
  "role_markers =
     [(''SEARCH HEADS'', SEARCH_HEAD),
      (''INDEXERS'', INDEXER),
      (''CLUSTER MANAGER'', CLUSTER_MANAGER),
      (''SHC DEPLOYER'', SHC_DEPLOYER),
      (''HTTP EVENT COLLECTOR RECEVIER INSTANCE'', HTTP_EVENT_COLLECTOR)]"

text \<open>The inner loop of \<^verbatim>\<open>_split_by_roles\<close>: the role of the first marker whose begin
  line occurs in the line.\<close>

fun begin_role :: "(string \<times> SplunkRole) list \<Rightarrow> string \<Rightarrow> SplunkRole option" where
  "begin_role [] line = None"
| "begin_role ((marker, r) # ms) line =
     (if contains (''###BEGIN '' @ marker @ ''###'') line then Some r
      else begin_role ms line)"

record split_state =
  sections :: "(SplunkRole \<times> string) list"
  current_role :: "SplunkRole option"
  current_section :: "string list"

text \<open>One turn of the outer loop of \<^verbatim>\<open>_split_by_roles\<close>.\<close>

definition split_step :: "split_state \<Rightarrow> string \<Rightarrow> split_state" where
  "split_step st raw =
     (let line = strip raw;
          st1 = (case begin_role role_markers line of
                   Some r \<Rightarrow> st\<lparr>current_role := Some r, current_section := []\<rparr>
                 | None \<Rightarrow> st)
      in case current_role st1 of
           None \<Rightarrow> st1
         | Some r \<Rightarrow>
             if contains ''###END'' line
             then st1\<lparr>sections := dict_set r (join_lines (current_section st1)) (sections st1),
                      current_role := None, current_section := []\<rparr>
             else if line \<noteq> []
             then st1\<lparr>current_section := current_section st1 @ [line]\<rparr>
             else st1)"

definition split_init :: split_state where
  "split_init = \<lparr>sections = [], current_role = None, current_section = []\<rparr>"

definition split_by_roles :: "string \<Rightarrow> (SplunkRole \<times> string) list" where
  "split_by_roles content = sections (foldl split_step split_init (split_lines content))"

text \<open>\<^verbatim>\<open>expected_value.split('#')[0]\<close>\<close>

definition before_hash :: "string \<Rightarrow> string" where
  "before_hash v = (case split_on (CHR ''#'') v of [] \<Rightarrow> [] | w # ws \<Rightarrow> w)"

text \<open>The loop of \<^verbatim>\<open>_parse_role_section\<close>, its tests in the order of the source; the
  result lists the checks it appends.\<close>

fun role_section_lines ::
  "SplunkRole \<Rightarrow> string option \<Rightarrow> string option \<Rightarrow> string list \<Rightarrow> ConfigCheck list" where
  "role_section_lines r current_config_file current_stanza [] = []"
| "role_section_lines r current_config_file current_stanza (raw # rest) =
     (let line = strip raw
      in if line = [] \<or> startswith line ''#''
         then role_section_lines r current_config_file current_stanza rest
         else if startswith line ''###'' \<and> endswith line ''###'' \<and> contains ''.conf'' line
         then role_section_lines r (Some (strip (strip_hash line))) current_stanza rest
         else if startswith line ''['' \<and> endswith line '']''
         then role_section_lines r current_config_file (Some (slice_1_m1 line)) rest
         else if CHR ''='' \<in> set line \<and> truthy current_config_file \<and> truthy current_stanza
         then (let (k, v) = split_first (CHR ''='') line;
                   v1 = strip v;
                   v2 = (if CHR ''#'' \<in> set v1 then strip (before_hash v1) else v1)
               in if v2 = []
                  then role_section_lines r current_config_file current_stanza rest
                  else \<lparr>config_file = (case current_config_file of None \<Rightarrow> [] | Some f \<Rightarrow> f),
                        stanza = (case current_stanza of None \<Rightarrow> [] | Some n \<Rightarrow> n),
                        setting = strip k,
                        expected_value = v2,
                        actual_value = None,
                        status = ''UNKNOWN'',
                        role = Some r\<rparr>
                       # role_section_lines r current_config_file current_stanza rest)
         else role_section_lines r current_config_file current_stanza rest)"

definition parse_role_section :: "SplunkRole \<Rightarrow> string \<Rightarrow> ConfigCheck list" where
  "parse_role_section r section_content =
     role_section_lines r None None (split_lines section_content)"

text \<open>\<^verbatim>\<open>parse_config_file\<close>, from the content read: the checks of every section, in
  the order of the dictionary, appended to \<^verbatim>\<open>self.config_checks\<close>.\<close>

definition parse_config_file :: "ConfigCheck list \<Rightarrow> string \<Rightarrow> ConfigCheck list" where
  "parse_config_file config_checks content =
     config_checks @ concat (map (\<lambda>(r, s). parse_role_section r s) (split_by_roles content))"

section \<open>The backend resolvers\<close>

text \<open>What \<^verbatim>\<open>subprocess.run\<close> does: it completes with a return code, the standard
  output and the diagnostic output, or raises; the three exceptions the source
  catches are named, any other one is \<open>OtherException\<close>.\<close>

datatype proc_result =
  Completed int string string
| TimeoutExpired
| CalledProcessError
| FileNotFoundError
| OtherException

datatype error = Uncaught

text \<open>The checker object and the world it reads: the fields of \<^verbatim>\<open>self\<close>, the answer
  of the resolution tool to a command line, the directory walk, the glob, and the
  content of a file (\<open>None\<close> where the file is missing, unreadable, or reading it
  raises). The world does not change during a check pass.\<close>

record checker =
  diag_mode :: bool
  splunk_home :: string
  btool_path :: string
  diag_temp_dir :: string
  subprocess_run :: "string list \<Rightarrow> proc_result"
  os_walk :: "string \<Rightarrow> (string \<times> string list) list"
  glob_glob :: "string \<Rightarrow> string list"
  read_file :: "string \<Rightarrow> string option"

text \<open>\<^verbatim>\<open>os.path.join\<close> on POSIX paths.\<close>

definition join2 :: "string \<Rightarrow> string \<Rightarrow> string" where
  "join2 a b =
     (if startswith b ''/'' then b
      else if a = [] \<or> endswith a ''/'' then a @ b
      else a @ ''/'' @ b)"

definition path_join :: "string \<Rightarrow> string list \<Rightarrow> string" where
  "path_join a bs = foldl join2 a bs"

text \<open>The readable files among the paths, each with its content, in order.\<close>

definition readable :: "checker \<Rightarrow> string list \<Rightarrow> (string \<times> string) list" where
  "readable env paths =
     concat (map (\<lambda>p. case read_file env p of None \<Rightarrow> [] | Some content \<Rightarrow> [(p, content)]) paths)"

text \<open>\<^verbatim>\<open>_read_config_from_diag\<close>\<close>

definition diag_config_paths :: "checker \<Rightarrow> string \<Rightarrow> string list" where
  "diag_config_paths env cf =
     concat (map (\<lambda>(root, files). map (join2 root) (filter (\<lambda>f. f = cf @ ''.conf'') files))
                 (os_walk env (diag_temp_dir env)))"

definition read_config_from_diag :: "checker \<Rightarrow> string \<Rightarrow> string" where
  "read_config_from_diag env cf =
     join_lines (concat (map (\<lambda>(p, content). [''# From: '' @ p, content, []])
                             (readable env (diag_config_paths env cf))))"

text \<open>\<^verbatim>\<open>_try_alternative_config_access\<close>\<close>

definition alternative_config_paths :: "checker \<Rightarrow> string \<Rightarrow> string list" where
  "alternative_config_paths env cf =
     concat (map (glob_glob env)
       [path_join (splunk_home env) [''etc'', ''system'', ''local'', cf @ ''.conf''],
        path_join (splunk_home env) [''etc'', ''system'', ''default'', cf @ ''.conf''],
        path_join (splunk_home env) [''etc'', ''apps'', ''*'', ''local'', cf @ ''.conf''],
        path_join (splunk_home env) [''etc'', ''apps'', ''*'', ''default'', cf @ ''.conf'']])"

definition try_alternative_config_access :: "checker \<Rightarrow> string \<Rightarrow> string" where
  "try_alternative_config_access env cf =
     join_lines (concat (map (\<lambda>(p, content). [''# From: '' @ p, content])
                             (readable env (alternative_config_paths env cf))))"

text \<open>\<^verbatim>\<open>run_btool_command\<close>: \<open>Inl\<close> is an exception that leaves the function.\<close>

definition btool_cmd :: "checker \<Rightarrow> string \<Rightarrow> string \<Rightarrow> string list" where
  "btool_cmd env cf st =
     [btool_path env, ''btool'', cf, ''list''] @ (if st \<noteq> [] then [st] else [])"

definition permission_failure :: "string \<Rightarrow> bool" where
  "permission_failure err = (contains ''Permission denied'' err \<or> contains ''cannot access'' err)"

definition run_btool_command :: "checker \<Rightarrow> string \<Rightarrow> string \<Rightarrow> error + string" where
  "run_btool_command env cf st =
     (if diag_mode env then Inr (read_config_from_diag env cf)
      else (case subprocess_run env (btool_cmd env cf st) of
              Completed returncode out err \<Rightarrow>
                if returncode = 0 then Inr (strip out)
                else if permission_failure err then Inr (try_alternative_config_access env cf)
                else Inr []
            | TimeoutExpired \<Rightarrow> Inr []
            | CalledProcessError \<Rightarrow> Inr []
            | FileNotFoundError \<Rightarrow> Inr []
            | OtherException \<Rightarrow> Inl Uncaught))"

section \<open>The check engine\<close>

text \<open>The body of the loop of \<^verbatim>\<open>check_configurations\<close> on one check.\<close>

definition config_base :: "ConfigCheck \<Rightarrow> string" where
  "config_base c = replace ''.conf'' [] (config_file c)"

definition check_one :: "checker \<Rightarrow> ConfigCheck \<Rightarrow> error + ConfigCheck" where
  "check_one env c =
     (case run_btool_command env (config_base c) (stanza c) of
        Inl e \<Rightarrow> Inl e
      | Inr btool_output \<Rightarrow>
          Inr (if btool_output \<noteq> []
               then (let actual = parse_btool_output btool_output (stanza c) (setting c)
                     in c\<lparr>actual_value := actual,
                          status := (case actual of
                                       None \<Rightarrow> ''MISSING''
                                     | Some a \<Rightarrow> if compare_values a (expected_value c)
                                                then ''OK'' else ''MISMATCH'')\<rparr>)
               else c\<lparr>status := ''ERROR''\<rparr>))"

text \<open>\<^verbatim>\<open>check_configurations\<close> updates the checks of \<^verbatim>\<open>self.config_checks\<close> in place:
  the result is the list after the loop, and the exception that ended the loop early,
  if one did (the checks from that one on are then as they were).\<close>

fun check_configurations :: "checker \<Rightarrow> ConfigCheck list \<Rightarrow> ConfigCheck list \<times> error option" where
  "check_configurations env [] = ([], None)"
| "check_configurations env (c # cs) =
     (case check_one env c of
        Inl e \<Rightarrow> (c # cs, Some e)
      | Inr c' \<Rightarrow> (case check_configurations env cs of (cs', r) \<Rightarrow> (c' # cs', r)))"

section \<open>The summary\<close>

text \<open>\<^verbatim>\<open>_get_summary\<close>: a dictionary in insertion order, from status to count.\<close>

definition summary_init :: "(string \<times> nat) list" where
  "summary_init =
     [(''OK'', 0), (''MISMATCH'', 0), (''MISSING'', 0), (''ERROR'', 0), (''UNKNOWN'', 0)]"

definition summary_step :: "(string \<times> nat) list \<Rightarrow> ConfigCheck \<Rightarrow> (string \<times> nat) list" where
  "summary_step summary c =
     (case map_of summary (status c) of
        None \<Rightarrow> summary
      | Some n \<Rightarrow> dict_set (status c) (n + 1) summary)"

definition get_summary :: "ConfigCheck list \<Rightarrow> (string \<times> nat) list" where
  "get_summary config_checks = foldl summary_step summary_init config_checks"

section \<open>Setting extraction as the specification words it\<close>

text \<open>The specification's account of extraction, on the stripped lines of the text: a
  line is skipped when it is blank or starts with \<open>#\<close>; a line wrapped in brackets is a
  stanza header; the stanza in effect at a line is the name in the last header before
  it; and the value is taken from the first line, neither skipped nor a header, that
  stands in the target stanza, contains \<open>=\<close> and has the target setting to the left of
  its first \<open>=\<close>.\<close>

definition skipped_line :: "string \<Rightarrow> bool" where
  "skipped_line l = (l = [] \<or> startswith l ''#'')"

definition header_line :: "string \<Rightarrow> bool" where
  "header_line l = (startswith l ''['' \<and> endswith l '']'')"

definition stanza_before :: "string list \<Rightarrow> nat \<Rightarrow> string option" where
  "stanza_before ls i =
     (let hs = filter header_line (take i ls)
      in if hs = [] then None else Some (slice_1_m1 (last hs)))"

definition matching_line :: "string list \<Rightarrow> string \<Rightarrow> string \<Rightarrow> nat \<Rightarrow> bool" where
  "matching_line ls target_stanza target_setting i =
     (\<not> skipped_line (ls ! i) \<and> \<not> header_line (ls ! i) \<and>
      stanza_before ls i = Some target_stanza \<and>
      CHR ''='' \<in> set (ls ! i) \<and>
      strip (fst (split_first (CHR ''='') (ls ! i))) = target_setting)"

definition extract_setting_spec :: "string \<Rightarrow> string \<Rightarrow> string \<Rightarrow> string option" where
  "extract_setting_spec text target_stanza target_setting =
     (let ls = map strip (split_lines text)
      in case filter (matching_line ls target_stanza target_setting) [0..<length ls] of
           [] \<Rightarrow> None
         | i # js \<Rightarrow> Some (strip (snd (split_first (CHR ''='') (ls ! i)))))"

text \<open>A comment line of a raw text: its stripped form starts with \<open>#\<close>.\<close>

definition comment_line :: "string \<Rightarrow> bool" where
  "comment_line raw = startswith (strip raw) ''#''"

section \<open>Example inputs\<close>

text \<open>The golden document of the repository's test, shortened to two role blocks with
  two setting lines each.\<close>

definition golden_two_roles :: string where
  "golden_two_roles = join_lines
     [''###BEGIN SEARCH HEADS###'',
      '''',
      ''###server.conf###'',
      ''[httpServer]'',
      ''busyKeepAliveIdleTimeout = 120'',
      ''streamInWriteTimeout = 30'',
      '''',
      ''###END SEARCH HEADS###'',
      '''',
      ''###BEGIN INDEXERS###'',
      '''',
      ''###server.conf###'',
      ''[clustering]'',
      ''heartbeat_period = 10'',
      ''cxn_timeout = 300'',
      '''',
      ''###END INDEXERS###'']"

text \<open>A document in which the role of the first block begins a second time.\<close>

definition golden_repeated_role :: string where
  "golden_repeated_role = join_lines
     [''###BEGIN INDEXERS###'',
      ''###server.conf###'',
      ''[clustering]'',
      ''heartbeat_period = 10'',
      ''###END INDEXERS###'',
      ''###BEGIN INDEXERS###'',
      ''###server.conf###'',
      ''[clustering]'',
      ''cxn_timeout = 300'',
      ''###END INDEXERS###'']"

definition example_check :: ConfigCheck where
  "example_check =
     \<lparr>config_file = ''server.conf'', stanza = ''httpServer'',
      setting = ''busyKeepAliveIdleTimeout'', expected_value = ''120'',
      actual_value = None, status = ''UNKNOWN'', role = Some SEARCH_HEAD\<rparr>"

text \<open>A live checker whose resolution tool always answers \<open>r\<close>, on a file system with
  nothing to read.\<close>

definition live_checker :: "proc_result \<Rightarrow> checker" where
  "live_checker r =
     \<lparr>diag_mode = False, splunk_home = ''/opt/splunk'',
      btool_path = ''/opt/splunk/bin/splunk'', diag_temp_dir = [],
      subprocess_run = (\<lambda>cmd. r), os_walk = (\<lambda>d. []), glob_glob = (\<lambda>p. []),
      read_file = (\<lambda>p. None)\<rparr>"

text \<open>An archive checker on an extracted tree with one directory, holding the files
  given by name and content.\<close>

definition diag_checker :: "(string \<times> string) list \<Rightarrow> checker" where
  "diag_checker files =
     \<lparr>diag_mode = True, splunk_home = ''/tmp/splunk_diag_x'',
      btool_path = [], diag_temp_dir = ''/tmp/splunk_diag_x'',
      subprocess_run = (\<lambda>cmd. OtherException),
      os_walk = (\<lambda>d. [(''/tmp/splunk_diag_x/etc/system/local'', map fst files)]),
      glob_glob = (\<lambda>p. []),
      read_file = map_of (map (\<lambda>(f, content). (''/tmp/splunk_diag_x/etc/system/local/'' @ f, content)) files)\<rparr>"

text \<open>A live checker whose tool fails with a permission error, on an installation
  whose local \<open>server.conf\<close> can be read.\<close>

definition fallback_checker :: "string \<Rightarrow> checker" where
  "fallback_checker content =
     \<lparr>diag_mode = False, splunk_home = ''/opt/splunk'',
      btool_path = ''/opt/splunk/bin/splunk'', diag_temp_dir = [],
      subprocess_run = (\<lambda>cmd. Completed 1 [] ''Permission denied''),
      os_walk = (\<lambda>d. []),
      glob_glob = (\<lambda>p. if p = ''/opt/splunk/etc/system/local/server.conf'' then [p] else []),
      read_file = (\<lambda>p. if p = ''/opt/splunk/etc/system/local/server.conf''
                         then Some content else None)\<rparr>"

text \<open>An archive checker on an extracted tree whose one directory has a name of four
  lines; it holds a \<open>server.conf\<close>.\<close>

definition newline_path_checker :: checker where
  "newline_path_checker =
     \<lparr>diag_mode = True, splunk_home = ''/tmp/splunk_diag_x'',
      btool_path = [], diag_temp_dir = ''/tmp/splunk_diag_x'',
      subprocess_run = (\<lambda>cmd. OtherException),
      os_walk = (\<lambda>d. [(join_lines [''/tmp/splunk_diag_x/x'', ''[evil]'', ''k = 1'', ''y''],
                          [''server.conf''])]),
      glob_glob = (\<lambda>p. []),
      read_file = (\<lambda>p. if p = join_lines [''/tmp/splunk_diag_x/x'', ''[evil]'', ''k = 1'',
                                             ''y/server.conf'']
                         then Some (join_lines [''[httpServer]'', ''busyKeepAliveIdleTimeout = 120''])
                         else None)\<rparr>"

section \<open>Properties of the value comparator\<close>

text \<open>
  C3. When the expected value, lowercased, is \<open>auto\<close>, \<open>true\<close> or \<open>false\<close>, the comparator
  returns exactly whether the two values are equal once lowercased. The right-hand side
  mentions neither the numeric nor the stripped comparison, so a numeric-looking actual
  value is compared as a string too.
\<close>

theorem compare_values_keyword_rule:
  "lower expected \<in> set [''auto'', ''true'', ''false''] \<Longrightarrow>
   compare_values actual expected = (lower actual = lower expected)"
  unfolding compare_values_def by (simp only: if_True)

theorem compare_values_keyword_rule_witness:
  "lower ''True'' \<in> set [''auto'', ''true'', ''false''] \<and>
   py_int ''1'' = Some 1 \<and> compare_values ''1'' ''True'' = False \<and>
   lower ''auto'' \<in> set [''auto'', ''true'', ''false''] \<and>
   compare_values ''AUTO'' ''auto'' = True"
proof -
  have p1: "lower ''True'' \<in> set [''auto'', ''true'', ''false'']" by code_simp
  have p2: "lower ''auto'' \<in> set [''auto'', ''true'', ''false'']" by code_simp
  have n1: "py_int ''1'' = Some 1" by code_simp
  have l1: "(lower ''1'' = lower ''True'') = False" by code_simp
  have l2: "(lower ''AUTO'' = lower ''auto'') = True" by code_simp
  show ?thesis
    using p1 p2 n1 l1 l2
      compare_values_keyword_rule [OF p1, of "''1''"]
      compare_values_keyword_rule [OF p2, of "''AUTO''"]
    by simp
qed



section \<open>Properties of the summary\<close>

lemma dict_set_keys:
  "k \<in> set (map fst d) \<Longrightarrow> map fst (dict_set k v d) = map fst d"
  by (induction d) force+

lemma dict_set_sum:
  fixes d :: "('k \<times> nat) list"
  shows "map_of d k = Some n \<Longrightarrow>
   sum_list (map snd (dict_set k (Suc n) d)) = Suc (sum_list (map snd d))"
  by (induction d) (auto split: if_splits)

lemma summary_step_keys: "map fst (summary_step s c) = map fst s"
proof (cases "map_of s (status c)")
  case None
  then show ?thesis by (simp add: summary_step_def)
next
  case (Some n)
  then have "status c \<in> set (map fst s)"
    by (metis domI dom_map_of_conv_image_fst set_map)
  with Some show ?thesis by (simp add: summary_step_def dict_set_keys)
qed

lemma summary_step_sum:
  assumes "status c \<in> set (map fst s)"
  shows "sum_list (map snd (summary_step s c)) = sum_list (map snd s) + 1"
proof -
  from assms obtain n where n: "map_of s (status c) = Some n"
    by (metis domD dom_map_of_conv_image_fst set_map)
  then show ?thesis by (simp add: summary_step_def dict_set_sum)
qed

lemma foldl_summary_keys: "map fst (foldl summary_step s cs) = map fst s"
  by (induction cs arbitrary: s) (simp_all add: summary_step_keys)

lemma foldl_summary_sum:
  "set (map status cs) \<subseteq> set (map fst s) \<Longrightarrow>
   sum_list (map snd (foldl summary_step s cs)) = sum_list (map snd s) + length cs"
proof (induction cs arbitrary: s)
  case Nil
  then show ?case by simp
next
  case (Cons c cs)
  have "set (map status cs) \<subseteq> set (map fst (summary_step s c))"
    using Cons.prems by (simp add: summary_step_keys)
  then have "sum_list (map snd (foldl summary_step (summary_step s c) cs)) =
             sum_list (map snd (summary_step s c)) + length cs"
    by (rule Cons.IH)
  moreover have "sum_list (map snd (summary_step s c)) = sum_list (map snd s) + 1"
    using Cons.prems by (intro summary_step_sum) simp
  ultimately show ?case by simp
qed

text \<open>
  C8. The summary has exactly the five keys \<open>OK\<close>, \<open>MISMATCH\<close>, \<open>MISSING\<close>, \<open>ERROR\<close> and
  \<open>UNKNOWN\<close>, whatever the results are (so each is present when its count is zero), and
  when every status is one of the five, the five counts add up to the number of results.
\<close>

theorem get_summary_keys_and_total:
  "map fst (get_summary cs) = [''OK'', ''MISMATCH'', ''MISSING'', ''ERROR'', ''UNKNOWN''] \<and>
   (set (map status cs) \<subseteq> set [''OK'', ''MISMATCH'', ''MISSING'', ''ERROR'', ''UNKNOWN''] \<longrightarrow>
    sum_list (map snd (get_summary cs)) = length cs)"
proof -
  have keys: "map fst summary_init = [''OK'', ''MISMATCH'', ''MISSING'', ''ERROR'', ''UNKNOWN'']"
    by (simp add: summary_init_def)
  have zero: "sum_list (map snd summary_init) = 0"
    by (simp add: summary_init_def)
  have "map fst (get_summary cs) = map fst summary_init"
    unfolding get_summary_def by (rule foldl_summary_keys)
  moreover have "sum_list (map snd (get_summary cs)) = length cs"
    if "set (map status cs) \<subseteq> set [''OK'', ''MISMATCH'', ''MISSING'', ''ERROR'', ''UNKNOWN'']"
    unfolding get_summary_def using foldl_summary_sum [of cs summary_init] that
    by (simp add: keys zero)
  ultimately show ?thesis by (simp only: keys) blast
qed

theorem get_summary_keys_and_total_witness:
  "get_summary [example_check\<lparr>status := ''OK''\<rparr>, example_check\<lparr>status := ''ERROR''\<rparr>,
                example_check\<lparr>status := ''OK''\<rparr>] =
     [(''OK'', 2), (''MISMATCH'', 0), (''MISSING'', 0), (''ERROR'', 1), (''UNKNOWN'', 0)] \<and>
   sum_list (map snd (get_summary [example_check\<lparr>status := ''OK''\<rparr>,
     example_check\<lparr>status := ''ERROR''\<rparr>, example_check\<lparr>status := ''OK''\<rparr>])) = 3 \<and>
   map fst (get_summary []) = [''OK'', ''MISMATCH'', ''MISSING'', ''ERROR'', ''UNKNOWN'']"
proof -
  let ?cs = "[example_check\<lparr>status := ''OK''\<rparr>, example_check\<lparr>status := ''ERROR''\<rparr>,
              example_check\<lparr>status := ''OK''\<rparr>]"
  have v: "get_summary ?cs =
      [(''OK'', 2), (''MISMATCH'', 0), (''MISSING'', 0), (''ERROR'', 1), (''UNKNOWN'', 0)]"
    by (simp add: get_summary_def summary_init_def summary_step_def)
  have h: "set (map status ?cs) \<subseteq> set [''OK'', ''MISMATCH'', ''MISSING'', ''ERROR'', ''UNKNOWN'']"
    by simp
  have "sum_list (map snd (get_summary ?cs)) = length ?cs"
    using get_summary_keys_and_total [of ?cs] h by blast
  then show ?thesis
    using v get_summary_keys_and_total [of "[]"] by simp
qed

section \<open>Properties of the check engine\<close>

text \<open>The fields a result inherits from its expectation.\<close>

lemma check_one_frame:
  "check_one env c = Inr c' \<Longrightarrow> c' = c\<lparr>actual_value := actual_value c', status := status c'\<rparr>"
  unfolding check_one_def by (auto simp: Let_def split: sum.splits if_splits)

lemma check_configurations_frame:
  "list_all2 (\<lambda>c c'. c' = c\<lparr>actual_value := actual_value c', status := status c'\<rparr>)
     cs (fst (check_configurations env cs))"
proof (induction cs)
  case Nil
  show ?case by simp
next
  case (Cons c cs)
  show ?case
  proof (cases "check_one env c")
    case (Inl e)
    then show ?thesis by (simp add: list_all2_refl)
  next
    case (Inr c')
    obtain cs' r where rest: "check_configurations env cs = (cs', r)"
      by (cases "check_configurations env cs")
    show ?thesis
      using Cons.IH check_one_frame [OF Inr] Inr rest by simp
  qed
qed

text \<open>
  C6. After a check pass the list holds one result for each expectation, in the order of
  the expectations, and each result is its expectation with at most \<open>actual_value\<close> and
  \<open>status\<close> changed: role, config file, stanza, setting and expected value are those of
  the expectation. This holds also when an exception ends the pass early.
\<close>

theorem check_configurations_inherits:
  "list_all2 (\<lambda>c c'. c' = c\<lparr>actual_value := actual_value c', status := status c'\<rparr>)
     cs (fst (check_configurations env cs)) \<and>
   length (fst (check_configurations env cs)) = length cs \<and>
   map (\<lambda>c. (role c, config_file c, stanza c, setting c, expected_value c))
       (fst (check_configurations env cs)) =
   map (\<lambda>c. (role c, config_file c, stanza c, setting c, expected_value c)) cs"
proof -
  let ?P = "\<lambda>c c'. c' = c\<lparr>actual_value := actual_value c', status := status c'\<rparr>"
  let ?f = "\<lambda>c. (role c, config_file c, stanza c, setting c, expected_value c)"
  have a: "list_all2 ?P cs (fst (check_configurations env cs))"
    by (rule check_configurations_frame)
  then have len: "length (fst (check_configurations env cs)) = length cs"
    by (simp add: list_all2_lengthD)
  have "?f c' = ?f c" if "?P c c'" for c c' :: ConfigCheck
  proof -
    have "?f c' = ?f (c\<lparr>actual_value := actual_value c', status := status c'\<rparr>)"
      using that by simp
    then show ?thesis by simp
  qed
  then have "list_all2 (\<lambda>c c'. ?f c' = ?f c) cs (fst (check_configurations env cs))"
    using a list_all2_mono [of ?P cs "fst (check_configurations env cs)" "\<lambda>c c'. ?f c' = ?f c"]
    by blast
  then have "map ?f (fst (check_configurations env cs)) = map ?f cs"
    by (induction rule: list_all2_induct) auto
  with a len show ?thesis by blast
qed

theorem check_configurations_inherits_witness:
  "map (\<lambda>c. (role c, config_file c, stanza c, setting c, expected_value c))
       (fst (check_configurations (live_checker TimeoutExpired)
               [example_check, example_check\<lparr>setting := ''streamInWriteTimeout''\<rparr>])) =
   [(Some SEARCH_HEAD, ''server.conf'', ''httpServer'', ''busyKeepAliveIdleTimeout'', ''120''),
    (Some SEARCH_HEAD, ''server.conf'', ''httpServer'', ''streamInWriteTimeout'', ''120'')]"
  using check_configurations_inherits
    [of "[example_check, example_check\<lparr>setting := ''streamInWriteTimeout''\<rparr>]"
        "live_checker TimeoutExpired"]
  by (simp add: example_check_def)

lemma check_one_result:
  assumes "run_btool_command env (config_base c) (stanza c) = Inr raw"
  shows "check_one env c =
     Inr (if raw \<noteq> []
          then c\<lparr>actual_value := parse_btool_output raw (stanza c) (setting c),
                 status := (case parse_btool_output raw (stanza c) (setting c) of
                              None \<Rightarrow> ''MISSING''
                            | Some a \<Rightarrow> if compare_values a (expected_value c)
                                       then ''OK'' else ''MISMATCH'')\<rparr>
          else c\<lparr>status := ''ERROR''\<rparr>)"
  unfolding check_one_def using assms by (simp add: Let_def)

lemma run_btool_command_timeout:
  "\<not> diag_mode env \<Longrightarrow> subprocess_run env (btool_cmd env cf st) = TimeoutExpired \<Longrightarrow>
   run_btool_command env cf st = Inr []"
  by (simp add: run_btool_command_def)

lemma run_btool_command_failed:
  "\<not> diag_mode env \<Longrightarrow> subprocess_run env (btool_cmd env cf st) = Completed rc out err \<Longrightarrow>
   rc \<noteq> 0 \<Longrightarrow>
   run_btool_command env cf st =
     Inr (if permission_failure err then try_alternative_config_access env cf else [])"
  by (simp add: run_btool_command_def)

lemma try_alternative_nothing:
  "readable env (alternative_config_paths env cf) = [] \<Longrightarrow>
   try_alternative_config_access env cf = []"
  by (simp add: try_alternative_config_access_def)

lemma run_btool_command_diag_nothing:
  "diag_mode env \<Longrightarrow> readable env (diag_config_paths env cf) = [] \<Longrightarrow>
   run_btool_command env cf st = Inr []"
  by (simp add: run_btool_command_def read_config_from_diag_def)

lemma check_configurations_completes:
  "\<forall>c \<in> set cs. run_btool_command env (config_base c) (stanza c) \<noteq> Inl Uncaught \<Longrightarrow>
   snd (check_configurations env cs) = None"
proof (induction cs)
  case Nil
  show ?case by simp
next
  case (Cons c cs)
  from Cons.prems obtain raw where raw: "run_btool_command env (config_base c) (stanza c) = Inr raw"
    by (cases "run_btool_command env (config_base c) (stanza c)") (auto intro: error.exhaust)
  obtain cs' r where rest: "check_configurations env cs = (cs', r)"
    by (cases "check_configurations env cs")
  have "snd (check_configurations env cs) = None"
    using Cons by simp
  then show ?case
    using rest by (simp add: check_one_result [OF raw])
qed

text \<open>A pass that ends without an exception has checked every expectation: the
  list then holds, in order, the result of the loop body on each.\<close>

lemma check_configurations_results:
  "snd (check_configurations env cs) = None \<Longrightarrow>
   map Inr (fst (check_configurations env cs)) = map (check_one env) cs"
proof (induction cs)
  case Nil
  show ?case by simp
next
  case (Cons c cs)
  show ?case
  proof (cases "check_one env c")
    case (Inl e)
    with Cons.prems show ?thesis by simp
  next
    case (Inr c')
    obtain cs' r where rest: "check_configurations env cs = (cs', r)"
      by (cases "check_configurations env cs")
    with Cons Inr show ?thesis by simp
  qed
qed

text \<open>
  C2, as amended. Let \<open>raw\<close> be what the backend returns for the check's key and stanza.
  The check then ends with a result, not an exception. If \<open>raw\<close> is empty the status is
  \<open>ERROR\<close> and \<open>actual_value\<close> is what it was (absent, for a check the parser made). If
  \<open>raw\<close> is not empty, \<open>actual_value\<close> is what extraction finds: when it finds nothing
  the status is \<open>MISSING\<close>, otherwise it is \<open>OK\<close> or \<open>MISMATCH\<close> as the comparator
  decides. The live backend returns the empty string on a timeout, and on a nonzero exit
  unless the diagnostics show a permission failure and the fallback reads a file; the
  archive backend returns it when no matching file can be read; and a pass in which no
  lookup raises ends without an exception.
\<close>

theorem check_status:
  "(run_btool_command env (config_base c) (stanza c) = Inr raw \<longrightarrow>
      (\<exists>c'. check_one env c = Inr c' \<and>
         (raw = [] \<longrightarrow> status c' = ''ERROR'' \<and> actual_value c' = actual_value c) \<and>
         (raw \<noteq> [] \<longrightarrow> actual_value c' = parse_btool_output raw (stanza c) (setting c)) \<and>
         (raw \<noteq> [] \<and> parse_btool_output raw (stanza c) (setting c) = None \<longrightarrow>
            status c' = ''MISSING'') \<and>
         (\<forall>a. raw \<noteq> [] \<and> parse_btool_output raw (stanza c) (setting c) = Some a \<longrightarrow>
            status c' = (if compare_values a (expected_value c) then ''OK'' else ''MISMATCH'')))) \<and>
   (\<not> diag_mode env \<and> subprocess_run env (btool_cmd env cf st) = TimeoutExpired \<longrightarrow>
      run_btool_command env cf st = Inr []) \<and>
   (\<not> diag_mode env \<and> subprocess_run env (btool_cmd env cf st) = Completed rc out err \<and>
    rc \<noteq> 0 \<and>
    (permission_failure err \<longrightarrow> readable env (alternative_config_paths env cf) = []) \<longrightarrow>
      run_btool_command env cf st = Inr []) \<and>
   (diag_mode env \<and> readable env (diag_config_paths env cf) = [] \<longrightarrow>
      run_btool_command env cf st = Inr []) \<and>
   ((\<forall>c \<in> set cs. run_btool_command env (config_base c) (stanza c) \<noteq> Inl Uncaught) \<longrightarrow>
      snd (check_configurations env cs) = None)"
proof (intro conjI impI)
  assume raw: "run_btool_command env (config_base c) (stanza c) = Inr raw"
  show "\<exists>c'. check_one env c = Inr c' \<and>
         (raw = [] \<longrightarrow> status c' = ''ERROR'' \<and> actual_value c' = actual_value c) \<and>
         (raw \<noteq> [] \<longrightarrow> actual_value c' = parse_btool_output raw (stanza c) (setting c)) \<and>
         (raw \<noteq> [] \<and> parse_btool_output raw (stanza c) (setting c) = None \<longrightarrow>
            status c' = ''MISSING'') \<and>
         (\<forall>a. raw \<noteq> [] \<and> parse_btool_output raw (stanza c) (setting c) = Some a \<longrightarrow>
            status c' = (if compare_values a (expected_value c) then ''OK'' else ''MISMATCH''))"
    by (simp add: check_one_result [OF raw])
next
  assume "\<not> diag_mode env \<and> subprocess_run env (btool_cmd env cf st) = TimeoutExpired"
  then show "run_btool_command env cf st = Inr []"
    by (simp add: run_btool_command_timeout)
next
  assume a: "\<not> diag_mode env \<and> subprocess_run env (btool_cmd env cf st) = Completed rc out err \<and>
    rc \<noteq> 0 \<and>
    (permission_failure err \<longrightarrow> readable env (alternative_config_paths env cf) = [])"
  then have "run_btool_command env cf st =
     Inr (if permission_failure err then try_alternative_config_access env cf else [])"
    by (intro run_btool_command_failed) auto
  with a show "run_btool_command env cf st = Inr []"
    by (simp add: try_alternative_nothing)
next
  assume "diag_mode env \<and> readable env (diag_config_paths env cf) = []"
  then show "run_btool_command env cf st = Inr []"
    by (simp add: run_btool_command_diag_nothing)
next
  assume "\<forall>c \<in> set cs. run_btool_command env (config_base c) (stanza c) \<noteq> Inl Uncaught"
  then show "snd (check_configurations env cs) = None"
    by (rule check_configurations_completes)
qed

theorem check_status_witness:
  "status (projr (check_one (live_checker TimeoutExpired) example_check)) = ''ERROR'' \<and>
   actual_value (projr (check_one (live_checker TimeoutExpired) example_check)) = None \<and>
   status (projr (check_one (live_checker (Completed 1 [] ''btool failed'')) example_check)) = ''ERROR'' \<and>
   status (projr (check_one (diag_checker []) example_check)) = ''ERROR'' \<and>
   status (projr (check_one (diag_checker
     [(''server.conf'', join_lines [''[httpServer]'', ''busyKeepAliveIdleTimeout = 120.0''])])
     example_check)) = ''OK'' \<and>
   status (projr (check_one (diag_checker
     [(''server.conf'', join_lines [''[httpServer]'', ''busyKeepAliveIdleTimeout = 60''])])
     example_check)) = ''MISMATCH'' \<and>
   status (projr (check_one (diag_checker
     [(''server.conf'', join_lines [''[httpServer]'', ''streamInWriteTimeout = 30''])])
     example_check)) = ''MISSING'' \<and>
   snd (check_configurations (live_checker TimeoutExpired) [example_check, example_check]) = None"
proof -
  let ?c = example_check
  let ?t = "live_checker TimeoutExpired"
  let ?f = "live_checker (Completed 1 [] ''btool failed'')"
  let ?d0 = "diag_checker []"
  let ?d1 = "diag_checker
     [(''server.conf'', join_lines [''[httpServer]'', ''busyKeepAliveIdleTimeout = 120.0''])]"
  let ?d2 = "diag_checker
     [(''server.conf'', join_lines [''[httpServer]'', ''busyKeepAliveIdleTimeout = 60''])]"
  let ?d3 = "diag_checker
     [(''server.conf'', join_lines [''[httpServer]'', ''streamInWriteTimeout = 30''])]"
  let ?raw1 = "read_config_from_diag ?d1 (config_base ?c)"
  let ?raw2 = "read_config_from_diag ?d2 (config_base ?c)"
  let ?raw3 = "read_config_from_diag ?d3 (config_base ?c)"
  have t: "\<not> diag_mode ?t \<and>
      subprocess_run ?t (btool_cmd ?t (config_base ?c) (stanza ?c)) = TimeoutExpired"
    by (simp add: live_checker_def)
  have f: "\<not> diag_mode ?f \<and>
      subprocess_run ?f (btool_cmd ?f (config_base ?c) (stanza ?c)) = Completed 1 [] ''btool failed'' \<and>
      (1::int) \<noteq> 0"
    by (simp add: live_checker_def)
  have nf: "\<not> permission_failure ''btool failed''" by code_simp
  have d0: "diag_mode ?d0 \<and> readable ?d0 (diag_config_paths ?d0 (config_base ?c)) = []"
    by (simp add: diag_checker_def readable_def diag_config_paths_def)
  have rt: "run_btool_command ?t (config_base ?c) (stanza ?c) = Inr []"
    using check_status [of ?t ?c "[]" "config_base ?c" "stanza ?c" 0 "[]" "[]" "[]"] t by blast
  have rf: "run_btool_command ?f (config_base ?c) (stanza ?c) = Inr []"
    using check_status [of ?f ?c "[]" "config_base ?c" "stanza ?c" 1 "[]" "''btool failed''" "[]"] f nf
    by blast
  have r0: "run_btool_command ?d0 (config_base ?c) (stanza ?c) = Inr []"
    using check_status [of ?d0 ?c "[]" "config_base ?c" "stanza ?c" 0 "[]" "[]" "[]"] d0 by blast
  have r1: "run_btool_command ?d1 (config_base ?c) (stanza ?c) = Inr ?raw1"
    by (simp add: run_btool_command_def diag_checker_def)
  have r2: "run_btool_command ?d2 (config_base ?c) (stanza ?c) = Inr ?raw2"
    by (simp add: run_btool_command_def diag_checker_def)
  have r3: "run_btool_command ?d3 (config_base ?c) (stanza ?c) = Inr ?raw3"
    by (simp add: run_btool_command_def diag_checker_def)
  have n1: "?raw1 \<noteq> []" by code_simp
  have n2: "?raw2 \<noteq> []" by code_simp
  have n3: "?raw3 \<noteq> []" by code_simp
  have p1: "parse_btool_output ?raw1 (stanza ?c) (setting ?c) = Some ''120.0''" by code_simp
  have p2: "parse_btool_output ?raw2 (stanza ?c) (setting ?c) = Some ''60''" by code_simp
  have p3: "parse_btool_output ?raw3 (stanza ?c) (setting ?c) = None" by code_simp
  have c1: "compare_values ''120.0'' (expected_value ?c) = True" by code_simp
  have c2: "compare_values ''60'' (expected_value ?c) = False" by code_simp
  have a0: "actual_value ?c = None" by (simp add: example_check_def)
  have st: "status (projr (check_one ?t ?c)) = ''ERROR'' \<and>
            actual_value (projr (check_one ?t ?c)) = None"
  proof -
    from check_status [of ?t ?c "[]" "[]" "[]" 0 "[]" "[]" "[]", THEN conjunct1, rule_format, OF rt]
    obtain c' where "check_one ?t ?c = Inr c'" "status c' = ''ERROR''"
      "actual_value c' = actual_value ?c" by auto
    then show ?thesis using a0 by simp
  qed
  have sf: "status (projr (check_one ?f ?c)) = ''ERROR''"
  proof -
    from check_status [of ?f ?c "[]" "[]" "[]" 0 "[]" "[]" "[]", THEN conjunct1, rule_format, OF rf]
    obtain c' where "check_one ?f ?c = Inr c'" "status c' = ''ERROR''" by auto
    then show ?thesis by simp
  qed
  have s0: "status (projr (check_one ?d0 ?c)) = ''ERROR''"
  proof -
    from check_status [of ?d0 ?c "[]" "[]" "[]" 0 "[]" "[]" "[]", THEN conjunct1, rule_format, OF r0]
    obtain c' where "check_one ?d0 ?c = Inr c'" "status c' = ''ERROR''" by auto
    then show ?thesis by simp
  qed
  have s1: "status (projr (check_one ?d1 ?c)) = ''OK''"
  proof -
    from check_status [of ?d1 ?c ?raw1 "[]" "[]" 0 "[]" "[]" "[]", THEN conjunct1, rule_format, OF r1]
    obtain c' where "check_one ?d1 ?c = Inr c'"
      "\<forall>a. ?raw1 \<noteq> [] \<and> parse_btool_output ?raw1 (stanza ?c) (setting ?c) = Some a \<longrightarrow>
         status c' = (if compare_values a (expected_value ?c) then ''OK'' else ''MISMATCH'')"
      by blast
    then show ?thesis using n1 p1 c1 by simp
  qed
  have s2: "status (projr (check_one ?d2 ?c)) = ''MISMATCH''"
  proof -
    from check_status [of ?d2 ?c ?raw2 "[]" "[]" 0 "[]" "[]" "[]", THEN conjunct1, rule_format, OF r2]
    obtain c' where "check_one ?d2 ?c = Inr c'"
      "\<forall>a. ?raw2 \<noteq> [] \<and> parse_btool_output ?raw2 (stanza ?c) (setting ?c) = Some a \<longrightarrow>
         status c' = (if compare_values a (expected_value ?c) then ''OK'' else ''MISMATCH'')"
      by blast
    then show ?thesis using n2 p2 c2 by simp
  qed
  have s3: "status (projr (check_one ?d3 ?c)) = ''MISSING''"
  proof -
    from check_status [of ?d3 ?c ?raw3 "[]" "[]" 0 "[]" "[]" "[]", THEN conjunct1, rule_format, OF r3]
    obtain c' where "check_one ?d3 ?c = Inr c'"
      "?raw3 \<noteq> [] \<and> parse_btool_output ?raw3 (stanza ?c) (setting ?c) = None \<longrightarrow>
         status c' = ''MISSING''"
      by blast
    then show ?thesis using n3 p3 by simp
  qed
  have "\<forall>c \<in> set [?c, ?c]. run_btool_command ?t (config_base c) (stanza c) \<noteq> Inl Uncaught"
    using rt by simp
  then have b: "snd (check_configurations ?t [?c, ?c]) = None"
    using check_status [of ?t ?c "[]" "[]" "[]" 0 "[]" "[]" "[?c, ?c]"] by blast
  show ?thesis
    using st sf s0 s1 s2 s3 b by blast
qed

text \<open>
  C2, as stated, counts every nonzero exit of the tool as "no data found". The code does
  not: when the diagnostics of the failed tool hold \<open>Permission denied\<close>, the resolver
  reads the configuration files itself, and with a readable \<open>server.conf\<close> the check ends
  \<open>OK\<close>, not \<open>ERROR\<close>.
\<close>

theorem check_status_counterexample:
  "subprocess_run
     (fallback_checker (join_lines [''[httpServer]'', ''busyKeepAliveIdleTimeout = 120'']))
     (btool_cmd
        (fallback_checker (join_lines [''[httpServer]'', ''busyKeepAliveIdleTimeout = 120'']))
        (config_base example_check) (stanza example_check)) =
     Completed 1 [] ''Permission denied'' \<and>
   check_one
     (fallback_checker (join_lines [''[httpServer]'', ''busyKeepAliveIdleTimeout = 120'']))
     example_check =
     Inr (example_check\<lparr>actual_value := Some ''120'', status := ''OK''\<rparr>)"
  by code_simp

text \<open>
  C7 (the code departs from it). The key is \<open>config_file\<close> with every occurrence of
  \<open>.conf\<close> removed, not only the suffix: for \<open>app.config.conf\<close> the backend is asked for
  \<open>appig\<close>, so an archive that holds \<open>app.config.conf\<close> yields \<open>ERROR\<close>.
\<close>

theorem config_base_removes_every_occurrence:
  "config_base (example_check\<lparr>config_file := ''app.config.conf''\<rparr>) = ''appig'' \<and>
   check_one
     (diag_checker [(''app.config.conf'',
        join_lines [''[httpServer]'', ''busyKeepAliveIdleTimeout = 120''])])
     (example_check\<lparr>config_file := ''app.config.conf''\<rparr>) =
   Inr (example_check\<lparr>config_file := ''app.config.conf'', status := ''ERROR''\<rparr>)"
  by code_simp

section \<open>Properties of the golden document parser\<close>

lemma startswith_hashes: "startswith l ''###'' \<Longrightarrow> startswith l ''#''"
  by (cases l) (auto simp: startswith_def)

text \<open>The test for a comment comes before the test for a config-file marker, and a
  marker starts with \<open>#\<close>: no line sets the current config file, and without one no
  setting line makes a check.\<close>

lemma role_section_lines_no_file: "role_section_lines r None cs ls = []"
  by (induction ls arbitrary: cs) (auto simp: Let_def truthy_def dest: startswith_hashes)

lemma parse_role_section_nothing: "parse_role_section r s = []"
  by (simp add: parse_role_section_def role_section_lines_no_file)

lemma parse_config_file_nothing: "parse_config_file checks content = checks"
  by (simp add: parse_config_file_def parse_role_section_nothing split_def)

text \<open>
  C1 (the code departs from it). A document with two role blocks of two setting lines
  each yields no expectation, where the claim counts four: the config-file marker of a
  block is skipped as a comment, so the setting lines have no file to belong to. And
  when a role begins a second time, the section of its later block replaces the section
  of the earlier one.
\<close>

theorem parse_config_file_two_roles:
  "parse_config_file [] golden_two_roles = [] \<and>
   split_by_roles golden_repeated_role =
     [(INDEXER, join_lines [''###BEGIN INDEXERS###'', ''###server.conf###'', ''[clustering]'',
                            ''cxn_timeout = 300''])]"
  by code_simp

section \<open>Lines of a text\<close>

lemma split_on_nonempty: "split_on sep s \<noteq> []"
  by (induction s) (auto split: list.splits)

lemma split_on_append:
  "split_on sep (a @ sep # b) = split_on sep a @ split_on sep b"
proof (induction a)
  case Nil
  show ?case by simp
next
  case (Cons c a)
  show ?case
  proof (cases "c = sep")
    case True
    then show ?thesis using Cons.IH by simp
  next
    case False
    obtain w ws where w: "split_on sep a = w # ws"
      using split_on_nonempty [of sep a] by (cases "split_on sep a") auto
    with False Cons.IH show ?thesis by simp
  qed
qed

lemma split_on_single: "sep \<notin> set s \<Longrightarrow> split_on sep s = [s]"
  by (induction s) auto

lemma split_lines_append:
  "split_lines (a @ newline # b) = split_lines a @ split_lines b"
  by (simp add: split_lines_def split_on_append)

lemma split_lines_single: "newline \<notin> set s \<Longrightarrow> split_lines s = [s]"
  by (simp add: split_lines_def split_on_single)

lemma split_lines_join:
  "xs \<noteq> [] \<Longrightarrow> split_lines (join_lines xs) = concat (map split_lines xs)"
proof (induction xs rule: join_lines.induct)
  case 1
  then show ?case by simp
next
  case (2 x)
  show ?case by simp
next
  case (3 x y ys)
  then show ?case by (simp add: split_lines_append)
qed

section \<open>Role blocks without an end marker\<close>

lemma split_step_sections:
  "\<not> contains ''###END'' (strip l) \<Longrightarrow> sections (split_step st l) = sections st"
  by (simp add: split_step_def Let_def split: option.splits)

lemma foldl_split_step_sections:
  "\<forall>l \<in> set ls. \<not> contains ''###END'' (strip l) \<Longrightarrow>
   sections (foldl split_step st ls) = sections st"
  by (induction ls arbitrary: st) (simp_all add: split_step_sections)

text \<open>After a line with a begin marker the state depends on the sections only: the
  current role and the lines gathered for it are replaced.\<close>

lemma split_step_begin:
  assumes "begin_role role_markers (strip b) = Some r" and "sections st = sections st'"
  shows "split_step st b = split_step st' b"
proof -
  have eq: "st\<lparr>current_role := Some r, current_section := []\<rparr> =
        st'\<lparr>current_role := Some r, current_section := []\<rparr>"
    using assms(2) by (cases st, cases st') simp
  show ?thesis
    by (simp only: split_step_def Let_def assms(1) option.case eq)
qed

lemma split_by_roles_unclosed_end:
  assumes "\<forall>l \<in> set (split_lines body). \<not> contains ''###END'' (strip l)"
  shows "split_by_roles (pre @ newline # body) = split_by_roles pre"
  using assms
  by (simp add: split_by_roles_def split_lines_append foldl_split_step_sections)

lemma split_by_roles_unclosed_begin:
  assumes "\<forall>l \<in> set (split_lines body). \<not> contains ''###END'' (strip l)"
    and "newline \<notin> set b" and "begin_role role_markers (strip b) = Some r"
  shows "split_by_roles (pre @ newline # body @ newline # b @ newline # rest) =
         split_by_roles (pre @ newline # b @ newline # rest)"
proof -
  let ?s = "foldl split_step split_init (split_lines pre)"
  have "sections (foldl split_step ?s (split_lines body)) = sections ?s"
    using assms(1) by (rule foldl_split_step_sections)
  then have "split_step (foldl split_step ?s (split_lines body)) b = split_step ?s b"
    by (rule split_step_begin [OF assms(3)])
  then show ?thesis
    using assms(2)
    by (simp add: split_by_roles_def split_lines_append split_lines_single)
qed

text \<open>
  C9. Lines that hold no end marker commit nothing. When a document ends with such
  lines (an unclosed role block among them), the sections, and so the expectations, are
  those of the document without them; a document of such lines alone has no section;
  and when a role-begin line follows such lines, the sections and the expectations are
  those of the document with the begin line in their place. A section enters the
  output only at a line that contains the end marker.
\<close>

theorem unclosed_block_commits_nothing:
  assumes "\<forall>l \<in> set (split_lines body). \<not> contains ''###END'' (strip l)"
  shows
    "split_by_roles body = [] \<and>
     split_by_roles (pre @ newline # body) = split_by_roles pre \<and>
     parse_config_file checks (pre @ newline # body) = parse_config_file checks pre \<and>
     (newline \<notin> set b \<and> begin_role role_markers (strip b) \<noteq> None \<longrightarrow>
        split_by_roles (pre @ newline # body @ newline # b @ newline # rest) =
        split_by_roles (pre @ newline # b @ newline # rest) \<and>
        parse_config_file checks (pre @ newline # body @ newline # b @ newline # rest) =
        parse_config_file checks (pre @ newline # b @ newline # rest))"
proof -
  have a: "split_by_roles body = []"
    using assms by (simp add: split_by_roles_def foldl_split_step_sections split_init_def)
  have b: "split_by_roles (pre @ newline # body) = split_by_roles pre"
    using assms by (rule split_by_roles_unclosed_end)
  have c: "split_by_roles (pre @ newline # body @ newline # b @ newline # rest) =
           split_by_roles (pre @ newline # b @ newline # rest)"
    if "newline \<notin> set b" and "begin_role role_markers (strip b) \<noteq> None"
  proof -
    from that(2) obtain r where "begin_role role_markers (strip b) = Some r" by auto
    with assms that(1) show ?thesis by (rule split_by_roles_unclosed_begin)
  qed
  show ?thesis
    using a b c by (simp add: parse_config_file_def)
qed

theorem unclosed_block_commits_nothing_witness:
  "split_by_roles (join_lines [''###BEGIN INDEXERS###'', ''###server.conf###'',
     ''[clustering]'', ''heartbeat_period = 10'']) = [] \<and>
   split_by_roles (join_lines [''###BEGIN SEARCH HEADS###'', ''[httpServer]'',
     ''###END SEARCH HEADS###'']
     @ newline # join_lines [''###BEGIN INDEXERS###'', ''###server.conf###'',
     ''[clustering]'', ''heartbeat_period = 10'']) =
     [(SEARCH_HEAD, join_lines [''###BEGIN SEARCH HEADS###'', ''[httpServer]''])] \<and>
   split_by_roles (join_lines [''###BEGIN SEARCH HEADS###'', ''[httpServer]'',
     ''###END SEARCH HEADS###'']
     @ newline # join_lines [''###BEGIN INDEXERS###'', ''###server.conf###'',
     ''[clustering]'', ''heartbeat_period = 10'']
     @ newline # ''###BEGIN CLUSTER MANAGER###''
     @ newline # join_lines [''[clustering]'', ''###END CLUSTER MANAGER###'']) =
     [(SEARCH_HEAD, join_lines [''###BEGIN SEARCH HEADS###'', ''[httpServer]'']),
      (CLUSTER_MANAGER, join_lines [''###BEGIN CLUSTER MANAGER###'', ''[clustering]''])]"
proof -
  let ?pre = "join_lines [''###BEGIN SEARCH HEADS###'', ''[httpServer]'',
     ''###END SEARCH HEADS###'']"
  let ?body = "join_lines [''###BEGIN INDEXERS###'', ''###server.conf###'',
     ''[clustering]'', ''heartbeat_period = 10'']"
  let ?b = "''###BEGIN CLUSTER MANAGER###''"
  let ?rest = "join_lines [''[clustering]'', ''###END CLUSTER MANAGER###'']"
  have h: "\<forall>l \<in> set (split_lines ?body). \<not> contains ''###END'' (strip l)"
    by code_simp
  have hb: "newline \<notin> set ?b \<and> begin_role role_markers (strip ?b) \<noteq> None"
    by code_simp
  have p: "split_by_roles ?pre =
      [(SEARCH_HEAD, join_lines [''###BEGIN SEARCH HEADS###'', ''[httpServer]''])]"
    by code_simp
  have q: "split_by_roles (?pre @ newline # ?b @ newline # ?rest) =
     [(SEARCH_HEAD, join_lines [''###BEGIN SEARCH HEADS###'', ''[httpServer]'']),
      (CLUSTER_MANAGER, join_lines [''###BEGIN CLUSTER MANAGER###'', ''[clustering]''])]"
    by code_simp
  note th = unclosed_block_commits_nothing [OF h, of ?pre "[]" ?b ?rest]
  have "split_by_roles ?body = []"
    using th by blast
  moreover have "split_by_roles (?pre @ newline # ?body) = split_by_roles ?pre"
    using th by blast
  moreover have "split_by_roles (?pre @ newline # ?body @ newline # ?b @ newline # ?rest) =
        split_by_roles (?pre @ newline # ?b @ newline # ?rest)"
    using th hb by blast
  ultimately show ?thesis
    using p q by simp
qed

section \<open>Properties of the stanza-text parser\<close>

text \<open>A line that starts with a character \<open>strip\<close> keeps still starts with it
  after the strip.\<close>

lemma strip_where_keeps_first:
  assumes "\<not> P c"
  shows "\<exists>t. strip_where P (c # s) = c # t"
proof -
  have "dropWhile P (rev s @ [c]) = dropWhile P (rev s) @ [c] \<or>
        dropWhile P (rev s @ [c]) = [c]"
    using assms by (simp add: dropWhile_append)
  then have "\<exists>u. dropWhile P (rev s @ [c]) = u @ [c]"
    by (metis append_Nil)
  then obtain u where "dropWhile P (rev s @ [c]) = u @ [c]" ..
  then show ?thesis
    using assms by (simp add: strip_where_def)
qed

lemma strip_comment: "startswith (strip (CHR ''#'' # s)) ''#''"
proof -
  have "\<not> isspace CHR ''#''"
    by (simp add: isspace_def)
  then obtain t where "strip (CHR ''#'' # s) = CHR ''#'' # t"
    unfolding strip_def using strip_where_keeps_first by blast
  then show ?thesis by (simp add: startswith_def)
qed

lemma scan_btool_comment:
  "comment_line raw \<Longrightarrow> scan_btool cur ts tk (raw # rest) = scan_btool cur ts tk rest"
  by (simp add: comment_line_def)

lemma scan_btool_filter:
  "scan_btool cur ts tk (filter (\<lambda>l. \<not> comment_line l) ls) = scan_btool cur ts tk ls"
proof (induction ls arbitrary: cur)
  case Nil
  show ?case by simp
next
  case (Cons raw ls)
  show ?case
  proof (cases "comment_line raw")
    case True
    then show ?thesis using Cons.IH by (simp add: scan_btool_comment del: scan_btool.simps)
  next
    case False
    then show ?thesis using Cons.IH by (simp add: Let_def split: prod.splits)
  qed
qed

lemma scan_btool_same_content:
  "filter (\<lambda>l. \<not> comment_line l) ls = filter (\<lambda>l. \<not> comment_line l) ls' \<Longrightarrow>
   scan_btool cur ts tk ls = scan_btool cur ts tk ls'"
  by (metis scan_btool_filter)

lemma from_header_lines:
  "newline \<notin> set p \<Longrightarrow> split_lines (''# From: '' @ p) = [''# From: '' @ p]"
  by (rule split_lines_single) (simp add: newline_def)

lemma from_header_comment: "comment_line (''# From: '' @ p)"
  using strip_comment [of "'' From: '' @ p"] by (simp add: comment_line_def)

lemma from_header_filtered:
  assumes "newline \<notin> set p"
  shows "filter (\<lambda>l. \<not> comment_line l) (split_lines (''# From: '' @ p)) = []"
proof -
  have "split_lines (''# From: '' @ p) = [''# From: '' @ p]"
    using assms by (rule from_header_lines)
  moreover have "comment_line (''# From: '' @ p)"
    by (rule from_header_comment)
  ultimately show ?thesis by simp
qed

lemma readable_paths: "(p, content) \<in> set (readable env paths) \<Longrightarrow> p \<in> set paths"
  by (auto simp: readable_def split: option.splits)

text \<open>The lines of the two resolvers' outputs, without the comment lines, are the
  lines of the files' contents without the comment lines.\<close>

lemma diag_lines_content:
  assumes "\<forall>(p, content) \<in> set items. newline \<notin> set p"
  shows "filter (\<lambda>l. \<not> comment_line l)
           (concat (map split_lines
              (concat (map (\<lambda>(p, content). [''# From: '' @ p, content, []]) items)))) =
         filter (\<lambda>l. \<not> comment_line l)
           (concat (map split_lines
              (concat (map (\<lambda>(p, content). [content, []]) items))))"
  using assms
  by (induction items) (auto simp: from_header_filtered [simplified])

lemma alternative_lines_content:
  assumes "\<forall>(p, content) \<in> set items. newline \<notin> set p"
  shows "filter (\<lambda>l. \<not> comment_line l)
           (concat (map split_lines
              (concat (map (\<lambda>(p, content). [''# From: '' @ p, content]) items)))) =
         filter (\<lambda>l. \<not> comment_line l)
           (concat (map split_lines
              (concat (map (\<lambda>(p, content). [content]) items))))"
  using assms
  by (induction items) (auto simp: from_header_filtered [simplified])

lemma parse_diag_output:
  assumes "\<forall>(p, content) \<in> set items. newline \<notin> set p"
  shows "parse_btool_output
           (join_lines (concat (map (\<lambda>(p, content). [''# From: '' @ p, content, []]) items)))
           ts tk =
         parse_btool_output
           (join_lines (concat (map (\<lambda>(p, content). [content, []]) items))) ts tk"
proof (cases items)
  case Nil
  then show ?thesis by simp
next
  case (Cons i rest)
  then have ne: "concat (map (\<lambda>(p, content). [''# From: '' @ p, content, []]) items) \<noteq> []"
    "concat (map (\<lambda>(p, content). [content, []]) items) \<noteq> []"
    by (auto split: prod.splits)
  show ?thesis
    unfolding parse_btool_output_def split_lines_join [OF ne(1)] split_lines_join [OF ne(2)]
    by (rule scan_btool_same_content) (rule diag_lines_content [OF assms])
qed

lemma parse_alternative_output:
  assumes "\<forall>(p, content) \<in> set items. newline \<notin> set p"
  shows "parse_btool_output
           (join_lines (concat (map (\<lambda>(p, content). [''# From: '' @ p, content]) items)))
           ts tk =
         parse_btool_output
           (join_lines (concat (map (\<lambda>(p, content). [content]) items))) ts tk"
proof (cases items)
  case Nil
  then show ?thesis by simp
next
  case (Cons i rest)
  then have ne: "concat (map (\<lambda>(p, content). [''# From: '' @ p, content]) items) \<noteq> []"
    "concat (map (\<lambda>(p, content). [content]) items) \<noteq> []"
    by (auto split: prod.splits)
  show ?thesis
    unfolding parse_btool_output_def split_lines_join [OF ne(1)] split_lines_join [OF ne(2)]
    by (rule scan_btool_same_content) (rule alternative_lines_content [OF assms])
qed

text \<open>
  C10, as amended. A line whose stripped form starts with \<open>#\<close> is passed over:
  extraction goes on with the same current stanza and never returns from it, so a text
  gives the same value with its comment lines as without them. When no source path
  contains a newline, the \<open># From:\<close> headers of both resolvers are such lines:
  extraction from a resolver's output gives what it gives from the files' contents
  joined without them.
\<close>

theorem comment_lines_invisible:
  "(startswith (strip raw) ''#'' \<longrightarrow>
      scan_btool cur ts tk (raw # rest) = scan_btool cur ts tk rest) \<and>
   scan_btool cur ts tk (filter (\<lambda>l. \<not> startswith (strip l) ''#'') ls) = scan_btool cur ts tk ls \<and>
   ((\<forall>p \<in> set (diag_config_paths env cf). newline \<notin> set p) \<longrightarrow>
      parse_btool_output (read_config_from_diag env cf) ts tk =
      parse_btool_output
        (join_lines (concat (map (\<lambda>(p, content). [content, []])
                                 (readable env (diag_config_paths env cf))))) ts tk) \<and>
   ((\<forall>p \<in> set (alternative_config_paths env cf). newline \<notin> set p) \<longrightarrow>
      parse_btool_output (try_alternative_config_access env cf) ts tk =
      parse_btool_output
        (join_lines (concat (map (\<lambda>(p, content). [content])
                                 (readable env (alternative_config_paths env cf))))) ts tk)"
proof (intro conjI impI)
  assume "startswith (strip raw) ''#''"
  then show "scan_btool cur ts tk (raw # rest) = scan_btool cur ts tk rest"
    by simp
next
  show "scan_btool cur ts tk (filter (\<lambda>l. \<not> startswith (strip l) ''#'') ls) =
        scan_btool cur ts tk ls"
    using scan_btool_filter [of cur ts tk ls] by (simp add: comment_line_def)
next
  assume "\<forall>p \<in> set (diag_config_paths env cf). newline \<notin> set p"
  then have "\<forall>(p, content) \<in> set (readable env (diag_config_paths env cf)). newline \<notin> set p"
    by (auto dest: readable_paths)
  then show "parse_btool_output (read_config_from_diag env cf) ts tk =
      parse_btool_output
        (join_lines (concat (map (\<lambda>(p, content). [content, []])
                                 (readable env (diag_config_paths env cf))))) ts tk"
    unfolding read_config_from_diag_def by (rule parse_diag_output)
next
  assume "\<forall>p \<in> set (alternative_config_paths env cf). newline \<notin> set p"
  then have "\<forall>(p, content) \<in> set (readable env (alternative_config_paths env cf)). newline \<notin> set p"
    by (auto dest: readable_paths)
  then show "parse_btool_output (try_alternative_config_access env cf) ts tk =
      parse_btool_output
        (join_lines (concat (map (\<lambda>(p, content). [content])
                                 (readable env (alternative_config_paths env cf))))) ts tk"
    unfolding try_alternative_config_access_def by (rule parse_alternative_output)
qed

theorem comment_lines_invisible_witness:
  "scan_btool (Some ''a'') ''a'' ''k'' [''  # k = 1'', ''k = 2''] = Some ''2'' \<and>
   parse_btool_output
     (read_config_from_diag
        (diag_checker [(''server.conf'',
           join_lines [''# [other]'', ''[httpServer]'', ''busyKeepAliveIdleTimeout = 120''])])
        ''server'')
     ''httpServer'' ''busyKeepAliveIdleTimeout'' = Some ''120'' \<and>
   parse_btool_output
     (try_alternative_config_access
        (fallback_checker
           (join_lines [''# [other]'', ''[httpServer]'', ''busyKeepAliveIdleTimeout = 120'']))
        ''server'')
     ''httpServer'' ''busyKeepAliveIdleTimeout'' = Some ''120''"
proof -
  let ?content = "join_lines [''# [other]'', ''[httpServer]'', ''busyKeepAliveIdleTimeout = 120'']"
  let ?d = "diag_checker [(''server.conf'', ?content)]"
  let ?f = "fallback_checker ?content"
  note th = comment_lines_invisible
  have c: "startswith (strip ''  # k = 1'') ''#''" by code_simp
  have s: "scan_btool (Some ''a'') ''a'' ''k'' [''k = 2''] = Some ''2''" by code_simp
  have 1: "scan_btool (Some ''a'') ''a'' ''k'' [''  # k = 1'', ''k = 2''] = Some ''2''"
    using th [of "''  # k = 1''" "Some ''a''" "''a''" "''k''" "[''k = 2'']" "[]" ?d "[]"] c s
    by simp
  have pd: "\<forall>p \<in> set (diag_config_paths ?d ''server''). newline \<notin> set p" by code_simp
  have vd: "parse_btool_output
        (join_lines (concat (map (\<lambda>(p, content). [content, []])
                                 (readable ?d (diag_config_paths ?d ''server'')))))
        ''httpServer'' ''busyKeepAliveIdleTimeout'' = Some ''120''"
    by code_simp
  have 2: "parse_btool_output (read_config_from_diag ?d ''server'')
             ''httpServer'' ''busyKeepAliveIdleTimeout'' = Some ''120''"
    using th [of "[]" None "''httpServer''" "''busyKeepAliveIdleTimeout''" "[]" "[]" ?d "''server''"]
      pd vd by simp
  have pf: "\<forall>p \<in> set (alternative_config_paths ?f ''server''). newline \<notin> set p" by code_simp
  have vf: "parse_btool_output
        (join_lines (concat (map (\<lambda>(p, content). [content])
                                 (readable ?f (alternative_config_paths ?f ''server'')))))
        ''httpServer'' ''busyKeepAliveIdleTimeout'' = Some ''120''"
    by code_simp
  have 3: "parse_btool_output (try_alternative_config_access ?f ''server'')
             ''httpServer'' ''busyKeepAliveIdleTimeout'' = Some ''120''"
    using th [of "[]" None "''httpServer''" "''busyKeepAliveIdleTimeout''" "[]" "[]" ?f "''server''"]
      pf vf by simp
  show ?thesis using 1 2 3 by blast
qed

text \<open>
  C10, as stated, holds for every source path. The code does not: a path that contains
  a newline spreads the \<open># From:\<close> header over several lines, of which only the first
  is a comment. For an archive directory named \<open>x\<close>, \<open>[evil]\<close>, \<open>k = 1\<close>, \<open>y\<close> (four
  lines), the header sets the stanza \<open>evil\<close> and extraction returns \<open>1\<close> for its setting
  \<open>k\<close>, where the file's content alone gives nothing.
\<close>

theorem comment_lines_invisible_counterexample:
  "parse_btool_output (read_config_from_diag newline_path_checker ''server'') ''evil'' ''k'' =
     Some ''1'' \<and>
   parse_btool_output
     (join_lines (concat (map (\<lambda>(p, content). [content, []])
        (readable newline_path_checker (diag_config_paths newline_path_checker ''server'')))))
     ''evil'' ''k'' = None \<and>
   readable newline_path_checker (diag_config_paths newline_path_checker ''server'') =
     [(join_lines [''/tmp/splunk_diag_x/x'', ''[evil]'', ''k = 1'', ''y/server.conf''],
       join_lines [''[httpServer]'', ''busyKeepAliveIdleTimeout = 120''])]"
  by code_simp

section \<open>Extraction against the specification's account\<close>

lemma header_not_skipped: "header_line l \<Longrightarrow> \<not> skipped_line l"
  by (cases l) (auto simp: header_line_def skipped_line_def startswith_def)

lemma stanza_before_Suc:
  "i < length ls \<Longrightarrow>
   stanza_before ls (Suc i) =
     (if header_line (ls ! i) then Some (slice_1_m1 (ls ! i)) else stanza_before ls i)"
  by (simp add: stanza_before_def take_Suc_conv_app_nth Let_def)

text \<open>The loop from any point of the text: with the stanza in effect there as its
  state, it returns the value of the first matching line from there on.\<close>

lemma scan_btool_spec:
  "scan_btool (stanza_before (map strip (pre @ suf)) (length pre)) ts tk suf =
     (case filter (matching_line (map strip (pre @ suf)) ts tk)
             [length pre ..< length pre + length suf] of
        [] \<Rightarrow> None
      | i # js \<Rightarrow> Some (strip (snd (split_first (CHR ''='') (map strip (pre @ suf) ! i)))))"
proof (induction suf arbitrary: pre)
  case Nil
  show ?case by simp
next
  case (Cons raw rest)
  let ?L = "map strip (pre @ raw # rest)"
  let ?n = "length pre"
  let ?line = "strip raw"
  have L: "?L = map strip ((pre @ [raw]) @ rest)" by simp
  have at: "?L ! ?n = ?line" by (simp add: nth_append)
  have lt: "?n < length ?L" by simp
  have upt: "[?n ..< ?n + length (raw # rest)] = ?n # [Suc ?n ..< Suc ?n + length rest]"
  proof -
    have e1: "?n + length (raw # rest) = Suc (?n + length rest)" by simp
    have e2: "Suc ?n + length rest = Suc (?n + length rest)" by simp
    have "[?n ..< Suc (?n + length rest)] = ?n # [Suc ?n ..< Suc (?n + length rest)]"
      by (rule upt_conv_Cons) simp
    then show ?thesis by (simp only: e1 e2)
  qed
  have next_stanza: "stanza_before ?L (Suc ?n) =
      (if header_line ?line then Some (slice_1_m1 ?line) else stanza_before ?L ?n)"
    using stanza_before_Suc [OF lt] at by simp
  have IH: "scan_btool (stanza_before ?L (Suc ?n)) ts tk rest =
     (case filter (matching_line ?L ts tk) [Suc ?n ..< Suc ?n + length rest] of
        [] \<Rightarrow> None
      | i # js \<Rightarrow> Some (strip (snd (split_first (CHR ''='') (?L ! i)))))"
    using Cons.IH [of "pre @ [raw]"] by (simp only: L) simp
  consider (skip) "skipped_line ?line"
    | (header) "\<not> skipped_line ?line" "header_line ?line"
    | (other) "\<not> skipped_line ?line" "\<not> header_line ?line"
    by blast
  then show ?case
  proof cases
    case skip
    then have nh: "\<not> header_line ?line" using header_not_skipped by blast
    have nm: "\<not> matching_line ?L ts tk ?n"
      using skip at by (simp add: matching_line_def)
    have "scan_btool (stanza_before ?L ?n) ts tk (raw # rest) =
          scan_btool (stanza_before ?L ?n) ts tk rest"
      using skip by (simp add: skipped_line_def)
    also have "\<dots> = scan_btool (stanza_before ?L (Suc ?n)) ts tk rest"
      using nh next_stanza by simp
    finally show ?thesis
      using IH nm by (simp only: upt filter.simps if_False)
  next
    case header
    have nm: "\<not> matching_line ?L ts tk ?n"
      using header at by (simp add: matching_line_def)
    have "scan_btool (stanza_before ?L ?n) ts tk (raw # rest) =
          scan_btool (Some (slice_1_m1 ?line)) ts tk rest"
      using header by (simp add: skipped_line_def header_line_def)
    also have "\<dots> = scan_btool (stanza_before ?L (Suc ?n)) ts tk rest"
      using header next_stanza by simp
    finally show ?thesis
      using IH nm by (simp only: upt filter.simps if_False)
  next
    case other
    have keep: "stanza_before ?L (Suc ?n) = stanza_before ?L ?n"
      using other next_stanza by simp
    show ?thesis
    proof (cases "matching_line ?L ts tk ?n")
      case True
      then have m: "stanza_before ?L ?n = Some ts" "CHR ''='' \<in> set ?line"
        "strip (fst (split_first (CHR ''='') ?line)) = tk"
        using at by (simp_all add: matching_line_def)
      have "scan_btool (stanza_before ?L ?n) ts tk (raw # rest) =
            Some (strip (snd (split_first (CHR ''='') ?line)))"
        using other m by (auto simp: skipped_line_def header_line_def split_def Let_def)
      then show ?thesis
        using True at by (simp only: upt filter.simps if_True list.case)
    next
      case False
      then have nm: "\<not> (stanza_before ?L ?n = Some ts \<and> CHR ''='' \<in> set ?line \<and>
          strip (fst (split_first (CHR ''='') ?line)) = tk)"
        using other at by (simp add: matching_line_def)
      have "scan_btool (stanza_before ?L ?n) ts tk (raw # rest) =
            scan_btool (stanza_before ?L ?n) ts tk rest"
        using other nm by (auto simp: skipped_line_def header_line_def split_def Let_def)
      then have "scan_btool (stanza_before ?L ?n) ts tk (raw # rest) =
            scan_btool (stanza_before ?L (Suc ?n)) ts tk rest"
        using keep by simp
      then show ?thesis
        using IH False by (simp only: upt filter.simps if_False)
    qed
  qed
qed

text \<open>
  C5. Extraction returns what the specification's account gives: the stripped right
  side of the first line that is neither blank, nor a comment, nor a stanza header,
  stands after a header naming the target stanza with no other header in between, contains
  \<open>=\<close> and has the target setting, stripped, before its first \<open>=\<close>; and nothing when the
  text has no such line.
\<close>

theorem parse_btool_output_refines_spec:
  "parse_btool_output text target_stanza target_setting =
   extract_setting_spec text target_stanza target_setting"
proof -
  have "stanza_before (map strip (split_lines text)) 0 = None"
    by (simp add: stanza_before_def)
  then show ?thesis
    using scan_btool_spec [of "[]" "split_lines text" target_stanza target_setting]
    by (simp add: parse_btool_output_def extract_setting_spec_def Let_def split: list.splits)
qed

theorem parse_btool_output_refines_spec_witness:
  "parse_btool_output
     (join_lines [''k = 0'', ''[a]'', ''# k = 1'', '' j = 5'', ''[b]'', ''k = 6'', ''[a]'',
                  ''k=2=3 '', ''k = 4''])
     ''a'' ''k'' = Some ''2=3'' \<and>
   parse_btool_output (join_lines [''[a]'', ''j = 5'']) ''a'' ''k'' = None"
proof -
  have "extract_setting_spec
     (join_lines [''k = 0'', ''[a]'', ''# k = 1'', '' j = 5'', ''[b]'', ''k = 6'', ''[a]'',
                  ''k=2=3 '', ''k = 4''])
     ''a'' ''k'' = Some ''2=3''"
    by code_simp
  moreover have "extract_setting_spec (join_lines [''[a]'', ''j = 5'']) ''a'' ''k'' = None"
    by code_simp
  ultimately show ?thesis
    by (simp only: parse_btool_output_refines_spec)
qed

end
